theory Spec2Isabelle
  imports
    Complex_Main
    "HOL-Library.Word"
    "HOL-Library.Multiset"
    "HOL-Library.Sublist"
    "HOL-Library.List_Lexorder"
begin

section \<open>The websearch plugin: engine store and query matching\<close>

text \<open>
  A shallow embedding of \<^verbatim>\<open>src/src/plugin.cpp\<close>. A \<^verbatim>\<open>QString\<close> is the list of its
  UTF-16 code units, so \<^verbatim>\<open>size()\<close> is the length of the list and \<^verbatim>\<open>operator<\<close> is the
  lexicographic order of the code units. The plugin object, the two files it reads and
  writes, the stream of generated UUIDs and the emitted signals are one explicit state
  record. The lowercase mapping of \<^verbatim>\<open>QString::toLower\<close> and the functions of the host,
  which are not part of the sources, are parameters.
\<close>

subsection \<open>Data model\<close>

type_synonym QChar = "16 word"

type_synonym QString = "QChar list"

text \<open>A string literal \<^verbatim>\<open>u"..."_s\<close> whose characters are below U+0100.\<close>

definition qstr :: "string \<Rightarrow> QString" where
  "qstr cs = map (\<lambda>c. of_nat (of_char c)) cs"

text \<open>\<^verbatim>\<open>struct SearchEngine\<close>; the field \<^verbatim>\<open>id\<close> is written \<open>id'\<close>.\<close>

record SearchEngine =
  id' :: QString
  name :: QString
  trigger :: QString
  icon_path :: QString
  url :: QString
  fallback :: bool

text \<open>
  \<^verbatim>\<open>QJsonValue\<close>. An object is an association list read with \<open>map_of\<close>. The payload
  of a number is never read by the plugin.
\<close>

datatype json =
  JNull
  | JBool bool
  | JDouble rat
  | JString QString
  | JArray "json list"
  | JObject "(QString \<times> json) list"

text \<open>
  A file as \<^verbatim>\<open>QFile::open(QIODevice::ReadOnly)\<close> and \<^verbatim>\<open>QJsonDocument::fromJson(f.readAll())\<close>
  see it: it cannot be opened, or it opens and its bytes parse to a document
  (\<open>None\<close> is the null document that \<^verbatim>\<open>fromJson\<close> returns for bytes that are not JSON).
\<close>

datatype qfile = Unopenable | Document "json option"

subsection \<open>Library functions that are parameters\<close>

text \<open>
  What the plugin calls and the sources do not hold: \<open>lowercase\<close> is the Unicode lowercase
  mapping that \<^verbatim>\<open>QString::toLower\<close> applies (it can turn one code unit into several, so
  it need not keep the length); \<open>percentEncoded\<close> is the host's function of that name;
  \<open>matcher p k\<close> is the host's \<^verbatim>\<open>Matcher(p, {}).match(k)\<close>, \<open>None\<close> when the \<^verbatim>\<open>Match\<close>
  converts to false and its score otherwise.
\<close>

record 's library =
  lowercase :: "QString \<Rightarrow> QString"
  percentEncoded :: "QString \<Rightarrow> QString"
  matcher :: "QString \<Rightarrow> QString \<Rightarrow> 's option"

text \<open>
  \<^verbatim>\<open>QString::toLower\<close>: a string without characters is returned as it is; the characters
  of any other string go through the lowercase mapping.
\<close>

definition toLower :: "'s library \<Rightarrow> QString \<Rightarrow> QString" where
  "toLower lib s = (if s = [] then [] else lowercase lib s)"

subsection \<open>Qt string and JSON operations used by the plugin\<close>

text \<open>
  \<^verbatim>\<open>QChar::isSpace\<close>: U+0020, U+0009 to U+000D, U+0085, U+00A0 and the characters of the
  categories space separator (U+1680, U+2000 to U+200A, U+202F, U+205F, U+3000), line
  separator (U+2028) and paragraph separator (U+2029).
\<close>

definition isSpace :: "QChar \<Rightarrow> bool" where
  "isSpace c =
     (c = 0x20 \<or> (0x09 \<le> c \<and> c \<le> 0x0D) \<or> c = 0x85 \<or> c = 0xA0 \<or> c = 0x1680
      \<or> (0x2000 \<le> c \<and> c \<le> 0x200A) \<or> c = 0x2028 \<or> c = 0x2029 \<or> c = 0x202F
      \<or> c = 0x205F \<or> c = 0x3000)"

text \<open>\<^verbatim>\<open>QString::trimmed\<close>: whitespace removed from the start and the end.\<close>

definition trimmed :: "QString \<Rightarrow> QString" where
  "trimmed s = rev (dropWhile isSpace (rev (dropWhile isSpace s)))"

text \<open>\<^verbatim>\<open>QJsonDocument::array()\<close>: the array of an array document, else an empty array.\<close>

definition document_array :: "json option \<Rightarrow> json list" where
  "document_array d = (case d of Some (JArray a) \<Rightarrow> a | _ \<Rightarrow> [])"

text \<open>\<^verbatim>\<open>QJsonValue::toObject()\<close>: the object, else an empty object.\<close>

definition toObject :: "json \<Rightarrow> (QString \<times> json) list" where
  "toObject v = (case v of JObject kvs \<Rightarrow> kvs | _ \<Rightarrow> [])"

text \<open>\<^verbatim>\<open>QJsonObject::contains(key)\<close>.\<close>

definition contains :: "(QString \<times> json) list \<Rightarrow> QString \<Rightarrow> bool" where
  "contains kvs k = (map_of kvs k \<noteq> None)"

text \<open>
  \<^verbatim>\<open>o[key]\<close> on the non-const \<^verbatim>\<open>QJsonObject o\<close>: the value stored under the key; a key
  that is absent is created with a null value, which is what the read returns.
\<close>

definition at_key :: "(QString \<times> json) list \<Rightarrow> QString \<Rightarrow> json" where
  "at_key kvs k = (case map_of kvs k of Some v \<Rightarrow> v | None \<Rightarrow> JNull)"

text \<open>\<^verbatim>\<open>toString()\<close>: the string of a string value, else the empty string.\<close>

definition toString :: "json \<Rightarrow> QString" where
  "toString v = (case v of JString s \<Rightarrow> s | _ \<Rightarrow> [])"

text \<open>\<^verbatim>\<open>toBool(defaultValue)\<close>: the boolean of a boolean value, else the default.\<close>

definition toBool :: "json \<Rightarrow> bool \<Rightarrow> bool" where
  "toBool v d = (case v of JBool b \<Rightarrow> b | _ \<Rightarrow> d)"

text \<open>The configuration keys of the anonymous namespace.\<close>

definition CK_ENGINE_ID :: QString where "CK_ENGINE_ID = qstr ''id''"
definition CK_ENGINE_GUID :: QString where "CK_ENGINE_GUID = qstr ''guid''"
definition CK_ENGINE_NAME :: QString where "CK_ENGINE_NAME = qstr ''name''"
definition CK_ENGINE_URL :: QString where "CK_ENGINE_URL = qstr ''url''"
definition CK_ENGINE_TRIGGER :: QString where "CK_ENGINE_TRIGGER = qstr ''trigger''"
definition CK_ENGINE_ICON :: QString where "CK_ENGINE_ICON = qstr ''iconPath''"
definition CK_ENGINE_FALLBACK :: QString where "CK_ENGINE_FALLBACK = qstr ''fallback''"

subsection \<open>Sorting\<close>

text \<open>
  \<^verbatim>\<open>std::sort(first, last, comp)\<close>. The standard leaves the order of equivalent elements
  open. The model is insertion sort: each element in turn is moved left past the elements
  it compares less than. This is the algorithm the library runs on ranges of up to 16
  elements, the two candidates of an engine among them. On a longer range the library may
  leave elements that compare equal in another order; that the result is sorted and holds
  the same elements, which is what the theorems on \<^verbatim>\<open>setEngines\<close> state, is true of every
  such order.
\<close>

fun linear_insert :: "('a \<Rightarrow> 'a \<Rightarrow> bool) \<Rightarrow> 'a \<Rightarrow> 'a list \<Rightarrow> 'a list" where
  "linear_insert lt v [] = [v]"
| "linear_insert lt v (y # ys) =
     (if lt v y then v # y # ys else y # linear_insert lt v ys)"

definition std_sort :: "('a \<Rightarrow> 'a \<Rightarrow> bool) \<Rightarrow> 'a list \<Rightarrow> 'a list" where
  "std_sort lt xs = foldl (\<lambda>acc v. linear_insert lt v acc) [] xs"

subsection \<open>The engine store\<close>

text \<open>
  The plugin and its environment: the member \<^verbatim>\<open>searchEngines_\<close>; the configuration file
  \<^verbatim>\<open>engines.json\<close> and whether it opens for writing; the resource \<^verbatim>\<open>:engines.json\<close>
  (the built-in defaults, not part of the sources); the values that successive calls of
  \<^verbatim>\<open>QUuid::createUuid().toString(QUuid::WithoutBraces)\<close> return and how many were taken;
  the arguments of every emitted \<^verbatim>\<open>enginesChanged\<close>; the critical log.
\<close>

record plugin_state =
  searchEngines :: "SearchEngine list"
  config_file :: qfile
  config_writable :: bool
  defaults_file :: qfile
  uuid_supply :: "nat \<Rightarrow> QString"
  uuid_count :: nat
  enginesChanged :: "SearchEngine list list"
  crit_log :: "string list"

text \<open>\<^verbatim>\<open>serializeEngines\<close>; the document stands for its \<^verbatim>\<open>toJson()\<close> bytes.\<close>

definition serializeEngine :: "SearchEngine \<Rightarrow> json" where
  "serializeEngine e = JObject
     [(CK_ENGINE_ID, JString (id' e)),
      (CK_ENGINE_NAME, JString (name e)),
      (CK_ENGINE_URL, JString (url e)),
      (CK_ENGINE_TRIGGER, JString (trigger e)),
      (CK_ENGINE_ICON, JString (icon_path e)),
      (CK_ENGINE_FALLBACK, JBool (fallback e))]"

definition serializeEngines :: "SearchEngine list \<Rightarrow> json" where
  "serializeEngines engines = JArray (map serializeEngine engines)"

text \<open>
  The value of \<^verbatim>\<open>e.id\<close> after the conditional of \<^verbatim>\<open>deserializeEngines\<close> on the keys
  \<open>id\<close> and \<open>guid\<close>: it starts empty and stays so when the object has neither key.
\<close>

definition adopted_id :: "(QString \<times> json) list \<Rightarrow> QString" where
  "adopted_id ob =
     (if contains ob CK_ENGINE_ID then toString (at_key ob CK_ENGINE_ID)
      else if contains ob CK_ENGINE_GUID then toString (at_key ob CK_ENGINE_GUID)
      else [])"

text \<open>
  The body of the loop of \<^verbatim>\<open>deserializeEngines\<close> for one array element. The second
  component counts the UUIDs taken so far: \<^verbatim>\<open>createUuid\<close> is called when, and only when,
  the id is empty after the conditional.
\<close>

definition deserializeEngine :: "(nat \<Rightarrow> QString) \<Rightarrow> nat \<Rightarrow> json \<Rightarrow> SearchEngine \<times> nat" where
  "deserializeEngine uuid n v =
     (let ob = toObject v;
          i0 = adopted_id ob;
          fresh = (i0 = []);
          i1 = (if fresh then take 8 (uuid n) else i0)
      in (\<lparr> id' = i1,
            name = toString (at_key ob CK_ENGINE_NAME),
            trigger = trimmed (toString (at_key ob CK_ENGINE_TRIGGER)),
            icon_path = toString (at_key ob CK_ENGINE_ICON),
            url = toString (at_key ob CK_ENGINE_URL),
            fallback = toBool (at_key ob CK_ENGINE_FALLBACK) True \<rparr>,
          if fresh then Suc n else n))"

fun deserializeLoop :: "(nat \<Rightarrow> QString) \<Rightarrow> nat \<Rightarrow> json list \<Rightarrow> SearchEngine list \<times> nat" where
  "deserializeLoop uuid n [] = ([], n)"
| "deserializeLoop uuid n (v # vs) =
     (case deserializeEngine uuid n v of
        (e, n') \<Rightarrow> (case deserializeLoop uuid n' vs of (es, n'') \<Rightarrow> (e # es, n'')))"

definition deserializeEngines :: "(nat \<Rightarrow> QString) \<Rightarrow> nat \<Rightarrow> json option \<Rightarrow> SearchEngine list \<times> nat" where
  "deserializeEngines uuid n doc = deserializeLoop uuid n (document_array doc)"

text \<open>\<^verbatim>\<open>Plugin::setEngines\<close>: sort by name, store, write the file (or log), emit the signal.\<close>

definition setEngines :: "SearchEngine list \<Rightarrow> plugin_state \<Rightarrow> plugin_state" where
  "setEngines engines st =
     (let sorted_engines = std_sort (\<lambda>a b. name a < name b) engines;
          st1 = st\<lparr> searchEngines := sorted_engines \<rparr>;
          st2 = (if config_writable st1
                 then st1\<lparr> config_file := Document (Some (serializeEngines (searchEngines st1))) \<rparr>
                 else st1\<lparr> crit_log := crit_log st1 @ [''Could not write to file''] \<rparr>)
      in st2\<lparr> enginesChanged := enginesChanged st2 @ [searchEngines st2] \<rparr>)"

text \<open>\<^verbatim>\<open>Plugin::engines\<close>.\<close>

definition engines :: "plugin_state \<Rightarrow> SearchEngine list" where
  "engines st = searchEngines st"

text \<open>The body of the loop of \<^verbatim>\<open>Plugin::restoreDefaultEngines\<close> for one array element.\<close>

definition defaultEngine :: "(nat \<Rightarrow> QString) \<Rightarrow> nat \<Rightarrow> json \<Rightarrow> SearchEngine \<times> nat" where
  "defaultEngine uuid n v =
     (let ob = toObject v
      in (\<lparr> id' = take 8 (uuid n),
            name = toString (at_key ob CK_ENGINE_NAME),
            trigger = toString (at_key ob CK_ENGINE_TRIGGER),
            icon_path = toString (at_key ob CK_ENGINE_ICON),
            url = toString (at_key ob CK_ENGINE_URL),
            fallback = toBool (at_key ob CK_ENGINE_FALLBACK) False \<rparr>,
          Suc n))"

fun defaultLoop :: "(nat \<Rightarrow> QString) \<Rightarrow> nat \<Rightarrow> json list \<Rightarrow> SearchEngine list \<times> nat" where
  "defaultLoop uuid n [] = ([], n)"
| "defaultLoop uuid n (v # vs) =
     (case defaultEngine uuid n v of
        (e, n') \<Rightarrow> (case defaultLoop uuid n' vs of (es, n'') \<Rightarrow> (e # es, n'')))"

text \<open>\<^verbatim>\<open>Plugin::restoreDefaultEngines\<close>.\<close>

definition restoreDefaultEngines :: "plugin_state \<Rightarrow> plugin_state" where
  "restoreDefaultEngines st =
     (case defaults_file st of
        Document doc \<Rightarrow>
          (case defaultLoop (uuid_supply st) (uuid_count st) (document_array doc) of
             (es, n') \<Rightarrow> setEngines es (st\<lparr> uuid_count := n' \<rparr>))
      | Unopenable \<Rightarrow>
          setEngines [] (st\<lparr> crit_log := crit_log st @ [''Failed reading default engines.''] \<rparr>))"

text \<open>
  The constructor \<^verbatim>\<open>Plugin::Plugin\<close>, run on the state of a plugin that holds no engine
  yet (the directories it creates first are not modelled).
\<close>

definition Plugin :: "plugin_state \<Rightarrow> plugin_state" where
  "Plugin st =
     (case config_file st of
        Document doc \<Rightarrow>
          (case deserializeEngines (uuid_supply st) (uuid_count st) doc of
             (es, n') \<Rightarrow> setEngines es (st\<lparr> uuid_count := n' \<rparr>))
      | Unopenable \<Rightarrow> restoreDefaultEngines st)"

subsection \<open>Result items\<close>

text \<open>
  The arguments \<^verbatim>\<open>buildItem\<close> hands to \<^verbatim>\<open>StandardItem::make\<close>: identifier, text,
  subtext, the icon path that the icon factory captures, the URL that the action
  \<^verbatim>\<open>run\<close> opens, and the input action text.
\<close>

record Item =
  item_id :: QString
  item_text :: QString
  item_subtext :: QString
  item_icon :: QString
  item_url :: QString
  item_input_action_text :: QString

text \<open>\<^verbatim>\<open>RankItem(item, match)\<close>, for any type of score.\<close>

record 's RankItem =
  item :: Item
  score :: 's

text \<open>
  \<^verbatim>\<open>QString::replace(u"%s"_s, after)\<close>: every occurrence of \<^verbatim>\<open>%s\<close>, left to right, is
  replaced; the inserted text is not scanned again.
\<close>

fun replace_percent_s :: "QString \<Rightarrow> QString \<Rightarrow> QString" where
  "replace_percent_s after (a # b # cs) =
     (if [a, b] = qstr ''%s'' then after @ replace_percent_s after cs
      else a # replace_percent_s after (b # cs))"
| "replace_percent_s after cs = cs"

text \<open>\<^verbatim>\<open>buildItem\<close>; \<^verbatim>\<open>tr\<close> is the identity and \<^verbatim>\<open>arg\<close> fills the place markers.\<close>

definition buildItem :: "'s library \<Rightarrow> SearchEngine \<Rightarrow> QString \<Rightarrow> Item" where
  "buildItem lib se search_term =
     \<lparr> item_id = id' se,
       item_text = name se,
       item_subtext =
         qstr ''Search '' @ name se @ qstr '' for '' @ [0x27] @ search_term @ [0x27],
       item_icon = icon_path se,
       item_url = replace_percent_s (percentEncoded lib search_term) (url se),
       item_input_action_text = trigger se @ qstr '' '' @ search_term \<rparr>"

subsection \<open>Ranking and fallbacks\<close>

text \<open>The two candidates of an engine, sorted shortest first.\<close>

definition candidates :: "SearchEngine \<Rightarrow> QString list" where
  "candidates e = std_sort (\<lambda>a b. length a < length b) [trigger e, name e]"

text \<open>
  The body of the inner loop of \<^verbatim>\<open>Plugin::rankItems\<close> for one candidate \<open>s\<close>: the keyword
  is the lowercased candidate and a space; the prefix is cut from the lowercased query to
  the size of the keyword; the search term is cut from the query as typed, at the size of
  the prefix.
\<close>

definition matchCandidate ::
  "'s library \<Rightarrow> QString \<Rightarrow> SearchEngine \<Rightarrow> QString \<Rightarrow> 's RankItem option" where
  "matchCandidate lib query e s =
     (let keyword = toLower lib s @ qstr '' '';
          pre = take (length keyword) (toLower lib query)
      in case matcher lib pre keyword of
           Some m \<Rightarrow> Some \<lparr> item = buildItem lib e (drop (length pre) query), score = m \<rparr>
         | None \<Rightarrow> None)"

text \<open>The inner loop: the first candidate that matches ends it (\<^verbatim>\<open>break\<close>).\<close>

fun tryCandidates ::
  "'s library \<Rightarrow> QString \<Rightarrow> SearchEngine \<Rightarrow> QString list \<Rightarrow> 's RankItem option" where
  "tryCandidates lib query e [] = None"
| "tryCandidates lib query e (s # ss) =
     (case matchCandidate lib query e s of
        Some r \<Rightarrow> Some r
      | None \<Rightarrow> tryCandidates lib query e ss)"

text \<open>The outer loop over \<^verbatim>\<open>searchEngines_\<close>.\<close>

fun rankLoop :: "'s library \<Rightarrow> QString \<Rightarrow> SearchEngine list \<Rightarrow> 's RankItem list" where
  "rankLoop lib query [] = []"
| "rankLoop lib query (e # es) =
     (case tryCandidates lib query e (candidates e) of
        Some r \<Rightarrow> r # rankLoop lib query es
      | None \<Rightarrow> rankLoop lib query es)"

text \<open>\<^verbatim>\<open>Plugin::rankItems\<close>; the query is \<^verbatim>\<open>ctx.query()\<close>.\<close>

definition rankItems :: "'s library \<Rightarrow> QString \<Rightarrow> plugin_state \<Rightarrow> 's RankItem list" where
  "rankItems lib query st = rankLoop lib query (searchEngines st)"

text \<open>
  Modelled from the spec: \<^verbatim>\<open>albert::Matcher\<close> and \<^verbatim>\<open>albert::Match\<close> belong to the host
  and are not part of the sources. Spec 4.2, step 5: the candidate matches when the keyword
  starts with the prefix, and the score is the length of the prefix over the length of the
  keyword, scaled to the maximum score constant (which the host supplies). Spec 4.2, edge
  cases: the empty query produces no match; \<^verbatim>\<open>rankItems\<close> has no test of its own for it,
  so the empty prefix is no match. The predecessor of \<^verbatim>\<open>rankItems\<close> in the sources
  computes this test and this score inline, behind a test that the query is not empty.
\<close>

definition Matcher_match :: "rat \<Rightarrow> QString \<Rightarrow> QString \<Rightarrow> rat option" where
  "Matcher_match MAX_SCORE pre keyword =
     (if pre \<noteq> [] \<and> prefix pre keyword
      then Some (MAX_SCORE * of_nat (length pre) / of_nat (length keyword))
      else None)"

text \<open>
  The string literal of \<^verbatim>\<open>Plugin::fallbacks\<close>, as the bytes of the source file decode:
  U+00E2, U+20AC, U+00A6.
\<close>

definition placeholder :: QString where
  "placeholder = [0xE2, 0x20AC, 0xA6]"

text \<open>The loop of \<^verbatim>\<open>Plugin::fallbacks\<close>.\<close>

fun fallbackLoop :: "'s library \<Rightarrow> QString \<Rightarrow> SearchEngine list \<Rightarrow> Item list" where
  "fallbackLoop lib query [] = []"
| "fallbackLoop lib query (e # es) =
     (if fallback e
      then buildItem lib e (if query = [] then placeholder else query) # fallbackLoop lib query es
      else fallbackLoop lib query es)"

text \<open>\<^verbatim>\<open>Plugin::fallbacks\<close>.\<close>

definition fallbacks :: "'s library \<Rightarrow> QString \<Rightarrow> plugin_state \<Rightarrow> Item list" where
  "fallbacks lib query st =
     (if query \<noteq> [] then fallbackLoop lib query (searchEngines st) else [])"

subsection \<open>Example values\<close>

text \<open>
  The lowercase mapping of \<^verbatim>\<open>QString::toLower\<close> on the characters the examples use: the
  ASCII letters, U+00C9 (lowercase U+00E9) and U+0130 (lowercase U+0069 U+0307, two code
  units). Every other code unit is kept.
\<close>

definition example_lowercase :: "QString \<Rightarrow> QString" where
  "example_lowercase s =
     concat (map (\<lambda>c. if 0x41 \<le> c \<and> c \<le> 0x5A then [c + 0x20]
                       else if c = 0xC9 then [0xE9]
                       else if c = 0x130 then [0x69, 0x307]
                       else [c]) s)"

text \<open>
  Percent encoding as \<^verbatim>\<open>QUrl::toPercentEncoding\<close> computes it for strings without
  surrogate pairs: letters, digits and \<^verbatim>\<open>-._~\<close> are kept, every other character becomes
  \<^verbatim>\<open>%HH\<close> for each byte of its UTF-8 encoding.
\<close>

definition utf8 :: "QChar \<Rightarrow> nat list" where
  "utf8 c =
     (let n = unat c
      in if n < 0x80 then [n]
         else if n < 0x800 then [0xC0 + n div 0x40, 0x80 + n mod 0x40]
         else [0xE0 + n div 0x1000, 0x80 + (n div 0x40) mod 0x40, 0x80 + n mod 0x40])"

definition hex_digit :: "nat \<Rightarrow> QChar" where
  "hex_digit n = qstr ''0123456789ABCDEF'' ! (n mod 16)"

definition example_percentEncoded :: "QString \<Rightarrow> QString" where
  "example_percentEncoded s =
     concat (map (\<lambda>c.
       if c \<in> set (qstr ''ABCDEFGHIJKLMNOPQRSTUVWXYZabcdefghijklmnopqrstuvwxyz0123456789-._~'')
       then [c]
       else concat (map (\<lambda>b. [0x25, hex_digit (b div 16), hex_digit b]) (utf8 c))) s)"

text \<open>A library with these two functions and the matcher of the spec.\<close>

definition example_library :: "rat \<Rightarrow> rat library" where
  "example_library MAX_SCORE =
     \<lparr> lowercase = example_lowercase, percentEncoded = example_percentEncoded,
       matcher = Matcher_match MAX_SCORE \<rparr>"

definition google :: SearchEngine where
  "google = \<lparr> id' = qstr ''a1b2c3d4'', name = qstr ''Google'', trigger = qstr ''gg'',
              icon_path = qstr '':google'', url = qstr ''https://www.google.com/search?q=%s'',
              fallback = True \<rparr>"

definition youtube :: SearchEngine where
  "youtube = \<lparr> id' = qstr ''e5f6a7b8'', name = qstr ''Youtube'', trigger = qstr ''yt'',
               icon_path = qstr '':youtube'',
               url = qstr ''https://www.youtube.com/results?search_query=%s'',
               fallback = False \<rparr>"

text \<open>UUIDs that differ in their first eight characters.\<close>

definition example_uuid :: "nat \<Rightarrow> QString" where
  "example_uuid n = qstr ''0000000'' @ [hex_digit n] @ qstr ''-0000-4000-8000-000000000000''"

text \<open>A plugin before its constructor ran: no engine, the given files, the UUIDs above.\<close>

definition fresh_plugin :: "qfile \<Rightarrow> bool \<Rightarrow> qfile \<Rightarrow> plugin_state" where
  "fresh_plugin cfg writable defaults =
     \<lparr> searchEngines = [], config_file = cfg, config_writable = writable,
       defaults_file = defaults, uuid_supply = example_uuid,
       uuid_count = 0, enginesChanged = [], crit_log = [] \<rparr>"

text \<open>
  A configuration written by older releases: records with and without \<open>id\<close>, \<open>guid\<close> and
  \<open>fallback\<close>.
\<close>

definition legacy_doc :: "json option" where
  "legacy_doc = Some (JArray
     [JObject [(qstr ''id'', JString (qstr ''abc'')), (qstr ''name'', JString (qstr ''Wiki'')),
               (qstr ''trigger'', JString (qstr '' wiki '')),
               (qstr ''url'', JString (qstr ''https://en.wikipedia.org/?search=%s''))],
      JObject [(qstr ''guid'', JString (qstr ''legacy01'')), (qstr ''name'', JString (qstr ''Ebay'')),
               (qstr ''trigger'', JString (qstr ''eb '')), (qstr ''fallback'', JBool False)],
      JObject [(qstr ''name'', JString (qstr ''Amazon'')), (qstr ''trigger'', JString (qstr ''ama''))],
      JObject [(qstr ''id'', JString []), (qstr ''guid'', JString (qstr ''legacy02'')),
               (qstr ''name'', JString (qstr ''GitHub''))]])"

text \<open>A plugin whose configuration file opens but does not hold JSON, and a defaults payload.\<close>

definition corrupt_config :: plugin_state where
  "corrupt_config =
     fresh_plugin (Document None) True (Document (Some (JArray [serializeEngine google])))"

definition spaced_defaults :: json where
  "spaced_defaults = JArray
     [JObject [(qstr ''name'', JString (qstr ''Google'')), (qstr ''trigger'', JString (qstr ''gg '')),
               (qstr ''url'', JString (qstr ''https://www.google.com/search?q=%s''))]]"

text \<open>A configuration whose trigger has U+00A0 before and U+2003 after the letters.\<close>

definition nbsp_config :: json where
  "nbsp_config = JArray
     [JObject [(qstr ''name'', JString (qstr ''Dict'')),
               (qstr ''trigger'', JString ([0xA0] @ qstr ''dd'' @ [0x2003]))]]"

text \<open>
  An engine whose name is shorter than its trigger, an engine without a trigger, and an
  engine whose trigger is U+0130, which lowercasing makes longer.
\<close>

definition short_name :: SearchEngine where
  "short_name = \<lparr> id' = qstr ''0f0f0f0f'', name = qstr ''g'', trigger = qstr ''gg'',
                  icon_path = qstr '':default'', url = qstr ''https://example.org/?q=%s'',
                  fallback = False \<rparr>"

definition no_trigger :: SearchEngine where
  "no_trigger = \<lparr> id' = qstr ''1e1e1e1e'', name = qstr ''Google'', trigger = [],
                  icon_path = qstr '':google'', url = qstr ''https://www.google.com/search?q=%s'',
                  fallback = True \<rparr>"

definition dotted_trigger :: SearchEngine where
  "dotted_trigger = \<lparr> id' = qstr ''2d2d2d2d'', name = qstr ''Sozluk'', trigger = [0x130],
                      icon_path = qstr '':default'', url = qstr ''https://example.org/?q=%s'',
                      fallback = False \<rparr>"

section \<open>Properties\<close>

subsection \<open>Sorting\<close>

lemma mset_linear_insert: "mset (linear_insert lt v xs) = add_mset v (mset xs)"
  by (induction xs) simp_all

lemma mset_foldl_linear_insert:
  "mset (foldl (\<lambda>ys v. linear_insert lt v ys) acc xs) = mset acc + mset xs"
  by (induction xs arbitrary: acc) (simp_all add: mset_linear_insert)

lemma mset_std_sort: "mset (std_sort lt xs) = mset xs"
  by (simp add: std_sort_def mset_foldl_linear_insert)

lemma set_linear_insert: "set (linear_insert lt v xs) = insert v (set xs)"
  by (induction xs) auto

lemma sorted_linear_insert:
  fixes key :: "'a \<Rightarrow> 'k::linorder"
  assumes "sorted (map key xs)"
  shows "sorted (map key (linear_insert (\<lambda>a b. key a < key b) v xs))"
  using assms
proof (induction xs)
  case Nil
  show ?case by simp
next
  case (Cons y ys)
  show ?case
  proof (cases "key v < key y")
    case True
    with Cons.prems show ?thesis by auto
  next
    case False
    with Cons show ?thesis by (auto simp: set_linear_insert)
  qed
qed

lemma sorted_foldl_linear_insert:
  fixes key :: "'a \<Rightarrow> 'k::linorder"
  shows "sorted (map key acc) \<Longrightarrow>
    sorted (map key (foldl (\<lambda>ys v. linear_insert (\<lambda>a b. key a < key b) v ys) acc xs))"
  by (induction xs arbitrary: acc) (simp_all add: sorted_linear_insert)

lemma sorted_std_sort:
  fixes key :: "'a \<Rightarrow> 'k::linorder"
  shows "sorted (map key (std_sort (\<lambda>a b. key a < key b) xs))"
  by (simp add: std_sort_def sorted_foldl_linear_insert)

lemma searchEngines_setEngines:
  "searchEngines (setEngines es st) = std_sort (\<lambda>a b. name a < name b) es"
  by (simp add: setEngines_def Let_def)

lemma enginesChanged_setEngines:
  "enginesChanged (setEngines es st) = enginesChanged st @ [std_sort (\<lambda>a b. name a < name b) es]"
  by (simp add: setEngines_def Let_def)

lemma config_file_setEngines:
  "config_file (setEngines es st) =
     (if config_writable st
      then Document (Some (serializeEngines (std_sort (\<lambda>a b. name a < name b) es)))
      else config_file st)"
  by (simp add: setEngines_def Let_def)

text \<open>
  C10. \<^verbatim>\<open>setEngines\<close> stores a permutation of the list it is given: the stored list has
  the same engine records, each as often as the input has it, so no field of any engine
  is changed.
\<close>

theorem setEngines_permutation:
  "mset (engines (setEngines es st)) = mset es"
  by (simp add: engines_def searchEngines_setEngines mset_std_sort)

subsection \<open>The store after a write\<close>

lemma engines_restoreDefaultEngines:
  "defaults_file st = Document doc \<Longrightarrow>
   engines (restoreDefaultEngines st) =
     std_sort (\<lambda>a b. name a < name b)
       (fst (defaultLoop (uuid_supply st) (uuid_count st) (document_array doc)))"
  by (simp add: restoreDefaultEngines_def engines_def searchEngines_setEngines split: prod.split)

lemma engines_restoreDefaultEngines_Unopenable:
  "defaults_file st = Unopenable \<Longrightarrow> engines (restoreDefaultEngines st) = []"
  by (simp add: restoreDefaultEngines_def engines_def searchEngines_setEngines std_sort_def)

lemma engines_Plugin:
  "config_file st = Document doc \<Longrightarrow>
   engines (Plugin st) =
     std_sort (\<lambda>a b. name a < name b)
       (fst (deserializeEngines (uuid_supply st) (uuid_count st) doc))"
  by (simp add: Plugin_def engines_def searchEngines_setEngines split: prod.split)

lemma Plugin_Unopenable:
  "config_file st = Unopenable \<Longrightarrow> Plugin st = restoreDefaultEngines st"
  by (simp add: Plugin_def)

lemma sorted_engines_restoreDefaultEngines:
  "sorted (map name (engines (restoreDefaultEngines st)))"
  by (cases "defaults_file st")
    (simp_all add: engines_restoreDefaultEngines engines_restoreDefaultEngines_Unopenable
      sorted_std_sort)

lemma sorted_engines_Plugin: "sorted (map name (engines (Plugin st)))"
  by (cases "config_file st")
    (simp_all add: engines_Plugin Plugin_Unopenable sorted_engines_restoreDefaultEngines
      sorted_std_sort)

text \<open>
  C4. After \<^verbatim>\<open>setEngines\<close> the stored list, which \<^verbatim>\<open>engines()\<close> returns, is sorted by
  name in the order of \<^verbatim>\<open>operator<\<close> on strings; the same list is the argument of the
  change notification, and it is the list written to the configuration file when the file
  opens for writing. The two other writers of the store, \<^verbatim>\<open>restoreDefaultEngines\<close> and the
  constructor, leave it sorted as well.
\<close>

theorem setEngines_sorted_by_name:
  "sorted (map name (engines (setEngines es st)))
   \<and> last (enginesChanged (setEngines es st)) = engines (setEngines es st)
   \<and> (config_writable st \<longrightarrow>
        config_file (setEngines es st) =
          Document (Some (serializeEngines (engines (setEngines es st)))))
   \<and> sorted (map name (engines (restoreDefaultEngines st)))
   \<and> sorted (map name (engines (Plugin st)))"
proof -
  have "sorted (map name (engines (setEngines es st)))"
    by (simp add: engines_def searchEngines_setEngines sorted_std_sort)
  moreover have "last (enginesChanged (setEngines es st)) = engines (setEngines es st)"
    by (simp add: engines_def searchEngines_setEngines enginesChanged_setEngines)
  moreover have "config_writable st \<longrightarrow>
      config_file (setEngines es st) =
        Document (Some (serializeEngines (engines (setEngines es st))))"
    by (simp add: engines_def searchEngines_setEngines config_file_setEngines)
  ultimately show ?thesis
    using sorted_engines_restoreDefaultEngines sorted_engines_Plugin by blast
qed

theorem setEngines_sorted_by_name_witness:
  "config_writable (fresh_plugin Unopenable True Unopenable)
   \<and> map name (engines (setEngines [youtube, google] (fresh_plugin Unopenable True Unopenable)))
       = [qstr ''Google'', qstr ''Youtube'']
   \<and> map name (engines (setEngines [google\<lparr> name := qstr ''amazon'' \<rparr>, youtube]
         (fresh_plugin Unopenable True Unopenable)))
       = [qstr ''Youtube'', qstr ''amazon'']
   \<and> sorted (map name (engines (setEngines [youtube, google] (fresh_plugin Unopenable True Unopenable))))
   \<and> config_file (setEngines [youtube, google] (fresh_plugin Unopenable True Unopenable)) =
       Document (Some (serializeEngines
         (engines (setEngines [youtube, google] (fresh_plugin Unopenable True Unopenable)))))"
proof -
  have w: "config_writable (fresh_plugin Unopenable True Unopenable)"
    by (simp add: fresh_plugin_def)
  have n: "map name (engines (setEngines [youtube, google] (fresh_plugin Unopenable True Unopenable)))
       = [qstr ''Google'', qstr ''Youtube'']"
    by code_simp
  have c: "map name (engines (setEngines [google\<lparr> name := qstr ''amazon'' \<rparr>, youtube]
         (fresh_plugin Unopenable True Unopenable)))
       = [qstr ''Youtube'', qstr ''amazon'']"
    by code_simp
  show ?thesis
    using w n c setEngines_sorted_by_name [of "[youtube, google]" "fresh_plugin Unopenable True Unopenable"]
    by simp
qed

subsection \<open>Reading engines\<close>

lemma deserializeLoop_Cons:
  "deserializeLoop uuid n (v # vs) =
     (fst (deserializeEngine uuid n v) # fst (deserializeLoop uuid (snd (deserializeEngine uuid n v)) vs),
      snd (deserializeLoop uuid (snd (deserializeEngine uuid n v)) vs))"
  by (simp split: prod.split)

lemma defaultLoop_Cons:
  "defaultLoop uuid n (v # vs) =
     (fst (defaultEngine uuid n v) # fst (defaultLoop uuid (Suc n) vs),
      snd (defaultLoop uuid (Suc n) vs))"
  by (simp add: defaultEngine_def Let_def split: prod.split)

lemma snd_deserializeEngine:
  "snd (deserializeEngine uuid n v) = (if adopted_id (toObject v) = [] then Suc n else n)"
  by (simp add: deserializeEngine_def Let_def)

lemma snd_deserializeLoop:
  "snd (deserializeLoop uuid n vs)
     = n + length (filter (\<lambda>v. adopted_id (toObject v) = []) vs)"
  by (induction vs arbitrary: n)
    (simp_all add: deserializeLoop_Cons snd_deserializeEngine del: deserializeLoop.simps(2))

lemma deserializeLoop_length: "length (fst (deserializeLoop uuid n vs)) = length vs"
  by (induction vs arbitrary: n) (simp_all add: deserializeLoop_Cons del: deserializeLoop.simps(2))

lemma deserializeLoop_nth:
  "i < length vs \<Longrightarrow>
   fst (deserializeLoop uuid n vs) ! i
     = fst (deserializeEngine uuid
         (n + length (filter (\<lambda>v. adopted_id (toObject v) = []) (take i vs))) (vs ! i))"
proof (induction vs arbitrary: n i)
  case Nil
  then show ?case by simp
next
  case (Cons v vs)
  show ?case
  proof (cases i)
    case 0
    then show ?thesis by (simp add: deserializeLoop_Cons del: deserializeLoop.simps(2))
  next
    case (Suc j)
    with Cons.prems have "j < length vs" by simp
    from Cons.IH [OF this, of "snd (deserializeEngine uuid n v)"] Suc show ?thesis
      by (simp add: deserializeLoop_Cons snd_deserializeEngine del: deserializeLoop.simps(2))
  qed
qed

lemma defaultLoop_length: "length (fst (defaultLoop uuid n vs)) = length vs"
  by (induction vs arbitrary: n) (simp_all add: defaultLoop_Cons del: defaultLoop.simps(2))

lemma defaultLoop_nth:
  "i < length vs \<Longrightarrow> fst (defaultLoop uuid n vs) ! i = fst (defaultEngine uuid (n + i) (vs ! i))"
proof (induction vs arbitrary: n i)
  case Nil
  then show ?case by simp
next
  case (Cons v vs)
  show ?case
  proof (cases i)
    case 0
    then show ?thesis by (simp add: defaultLoop_Cons del: defaultLoop.simps(2))
  next
    case (Suc j)
    with Cons.prems have "j < length vs" by simp
    from Cons.IH [OF this, of "Suc n"] Suc show ?thesis
      by (simp add: defaultLoop_Cons del: defaultLoop.simps(2))
  qed
qed

lemma std_sort_set: "set (std_sort lt xs) = set xs"
  by (metis mset_std_sort set_mset_mset)

lemma toBool_absent: "\<not> contains ob k \<Longrightarrow> toBool (at_key ob k) d = d"
  by (simp add: contains_def at_key_def toBool_def)

lemma filter_take_mono:
  "i \<le> j \<Longrightarrow> length (filter P (take i xs)) \<le> length (filter P (take j xs))"
proof -
  assume "i \<le> j"
  then have "take j xs = take i xs @ take (j - i) (drop i xs)"
    by (metis le_add_diff_inverse take_add)
  then show ?thesis by simp
qed

lemma filter_take_Suc:
  "i < length xs \<Longrightarrow> P (xs ! i) \<Longrightarrow>
   length (filter P (take (Suc i) xs)) = Suc (length (filter P (take i xs)))"
  by (simp add: take_Suc_conv_app_nth)

text \<open>
  C3. A record of the user configuration without the field \<open>fallback\<close> becomes an engine with
  \<open>fallback = True\<close>; a record of the built-in defaults without it becomes an engine with
  \<open>fallback = False\<close>. Either engine is in the store after the constructor, respectively
  \<^verbatim>\<open>restoreDefaultEngines\<close>, read that document.
\<close>

theorem fallback_default_asymmetry:
  assumes "i < length (document_array doc)"
    and "\<not> contains (toObject (document_array doc ! i)) CK_ENGINE_FALLBACK"
  shows "fallback (fst (deserializeEngines uuid n doc) ! i) = True
    \<and> fallback (fst (defaultLoop uuid n (document_array doc)) ! i) = False
    \<and> (config_file st = Document doc \<longrightarrow>
         fst (deserializeEngines (uuid_supply st) (uuid_count st) doc) ! i \<in> set (engines (Plugin st)))
    \<and> (defaults_file st = Document doc \<longrightarrow>
         fst (defaultLoop (uuid_supply st) (uuid_count st) (document_array doc)) ! i
           \<in> set (engines (restoreDefaultEngines st)))"
proof -
  have a: "fallback (fst (deserializeEngines uuid n doc) ! i) = True"
    using assms
    by (simp add: deserializeEngines_def deserializeLoop_nth deserializeEngine_def Let_def
        toBool_absent)
  have b: "fallback (fst (defaultLoop uuid n (document_array doc)) ! i) = False"
    using assms by (simp add: defaultLoop_nth defaultEngine_def Let_def toBool_absent)
  have c: "config_file st = Document doc \<longrightarrow>
         fst (deserializeEngines (uuid_supply st) (uuid_count st) doc) ! i \<in> set (engines (Plugin st))"
    using assms(1)
    by (simp add: engines_Plugin std_sort_set deserializeEngines_def deserializeLoop_length)
  have d: "defaults_file st = Document doc \<longrightarrow>
         fst (defaultLoop (uuid_supply st) (uuid_count st) (document_array doc)) ! i
           \<in> set (engines (restoreDefaultEngines st))"
    using assms(1)
    by (simp add: engines_restoreDefaultEngines std_sort_set defaultLoop_length)
  from a b c d show ?thesis by blast
qed

theorem fallback_default_asymmetry_witness:
  "2 < length (document_array legacy_doc)
   \<and> \<not> contains (toObject (document_array legacy_doc ! 2)) CK_ENGINE_FALLBACK
   \<and> fallback (fst (deserializeEngines example_uuid 0 legacy_doc) ! 2) = True
   \<and> fallback (fst (defaultLoop example_uuid 0 (document_array legacy_doc)) ! 2) = False"
proof -
  have h1: "2 < length (document_array legacy_doc)"
    by (simp add: legacy_doc_def document_array_def)
  have h2: "\<not> contains (toObject (document_array legacy_doc ! 2)) CK_ENGINE_FALLBACK"
    by code_simp
  show ?thesis
    using h1 h2 fallback_default_asymmetry [OF h1 h2, of example_uuid 0] by simp
qed

text \<open>
  C5. Deserializing a persisted record: a non-empty string under \<open>id\<close> is adopted as the
  id; without the field \<open>id\<close>, a non-empty string under the legacy field \<open>guid\<close> is adopted;
  a record with neither field adopts nothing. When the adopted value is empty (neither
  field, or an empty or non-string value) the id is generated for this record: it is the
  first eight characters of the UUID drawn at position \<open>k\<close>, where \<open>k\<close> counts the draws of
  this call before the record, one for each earlier record whose adopted value is empty.
  So every such record has a draw of its own, a later one a later draw, and the call
  draws as many UUIDs as the document has such records.
\<close>

theorem deserializeEngines_id:
  assumes "i < length (document_array doc)"
    and "ob = toObject (document_array doc ! i)"
    and "e = fst (deserializeEngines uuid n doc) ! i"
    and "k = n + length (filter (\<lambda>v. adopted_id (toObject v) = []) (take i (document_array doc)))"
  shows "(\<forall>s. map_of ob CK_ENGINE_ID = Some (JString s) \<and> s \<noteq> [] \<longrightarrow> id' e = s)
    \<and> (\<forall>s. map_of ob CK_ENGINE_ID = None \<and> map_of ob CK_ENGINE_GUID = Some (JString s) \<and> s \<noteq> []
          \<longrightarrow> id' e = s)
    \<and> (map_of ob CK_ENGINE_ID = None \<and> map_of ob CK_ENGINE_GUID = None \<longrightarrow> adopted_id ob = [])
    \<and> (adopted_id ob = [] \<longrightarrow>
          id' e = take 8 (uuid k) \<and> n \<le> k \<and> k < snd (deserializeEngines uuid n doc)
          \<and> (\<forall>j. i < j \<and> j < length (document_array doc)
                 \<and> adopted_id (toObject (document_array doc ! j)) = []
               \<longrightarrow> k < n + length (filter (\<lambda>v. adopted_id (toObject v) = [])
                                    (take j (document_array doc)))
                   \<and> id' (fst (deserializeEngines uuid n doc) ! j)
                       = take 8 (uuid (n + length (filter (\<lambda>v. adopted_id (toObject v) = [])
                                    (take j (document_array doc)))))))
    \<and> snd (deserializeEngines uuid n doc)
        = n + length (filter (\<lambda>v. adopted_id (toObject v) = []) (document_array doc))"
proof -
  let ?arr = "document_array doc"
  let ?P = "\<lambda>v. adopted_id (toObject v) = []"
  have e: "e = fst (deserializeEngine uuid k (?arr ! i))"
    using assms(1,3,4) by (simp add: deserializeEngines_def deserializeLoop_nth)
  have total: "snd (deserializeEngines uuid n doc) = n + length (filter ?P ?arr)"
    by (simp add: deserializeEngines_def snd_deserializeLoop)
  have a: "\<forall>s. map_of ob CK_ENGINE_ID = Some (JString s) \<and> s \<noteq> [] \<longrightarrow> id' e = s"
    using e assms(2)
    by (simp add: deserializeEngine_def adopted_id_def Let_def contains_def at_key_def toString_def)
  have b: "\<forall>s. map_of ob CK_ENGINE_ID = None \<and> map_of ob CK_ENGINE_GUID = Some (JString s) \<and> s \<noteq> []
          \<longrightarrow> id' e = s"
    using e assms(2)
    by (simp add: deserializeEngine_def adopted_id_def Let_def contains_def at_key_def toString_def)
  have c: "map_of ob CK_ENGINE_ID = None \<and> map_of ob CK_ENGINE_GUID = None \<longrightarrow> adopted_id ob = []"
    by (simp add: adopted_id_def contains_def)
  have d: "adopted_id ob = [] \<longrightarrow>
          id' e = take 8 (uuid k) \<and> n \<le> k \<and> k < snd (deserializeEngines uuid n doc)
          \<and> (\<forall>j. i < j \<and> j < length ?arr \<and> ?P (?arr ! j)
               \<longrightarrow> k < n + length (filter ?P (take j ?arr))
                   \<and> id' (fst (deserializeEngines uuid n doc) ! j)
                       = take 8 (uuid (n + length (filter ?P (take j ?arr)))))"
  proof
    assume empty: "adopted_id ob = []"
    then have Pi: "?P (?arr ! i)" using assms(2) by simp
    have id: "id' e = take 8 (uuid k)"
      using e Pi by (simp add: deserializeEngine_def Let_def)
    have Suc_i: "length (filter ?P (take (Suc i) ?arr)) = Suc (length (filter ?P (take i ?arr)))"
      using assms(1) Pi by (rule filter_take_Suc)
    have "length (filter ?P (take (Suc i) ?arr)) \<le> length (filter ?P (take (length ?arr) ?arr))"
      using assms(1) by (intro filter_take_mono) simp
    with Suc_i total assms(4) have bound: "k < snd (deserializeEngines uuid n doc)" by simp
    have later: "\<forall>j. i < j \<and> j < length ?arr \<and> ?P (?arr ! j)
               \<longrightarrow> k < n + length (filter ?P (take j ?arr))
                   \<and> id' (fst (deserializeEngines uuid n doc) ! j)
                       = take 8 (uuid (n + length (filter ?P (take j ?arr))))"
    proof (intro allI impI)
      fix j
      assume j: "i < j \<and> j < length ?arr \<and> ?P (?arr ! j)"
      then have "length (filter ?P (take (Suc i) ?arr)) \<le> length (filter ?P (take j ?arr))"
        by (intro filter_take_mono) simp
      with Suc_i assms(4) have 1: "k < n + length (filter ?P (take j ?arr))" by simp
      have 2: "id' (fst (deserializeEngines uuid n doc) ! j)
                       = take 8 (uuid (n + length (filter ?P (take j ?arr))))"
        using j by (simp add: deserializeEngines_def deserializeLoop_nth deserializeEngine_def Let_def)
      from 1 2 show "k < n + length (filter ?P (take j ?arr))
                   \<and> id' (fst (deserializeEngines uuid n doc) ! j)
                       = take 8 (uuid (n + length (filter ?P (take j ?arr))))" by blast
    qed
    from id bound later assms(4)
    show "id' e = take 8 (uuid k) \<and> n \<le> k \<and> k < snd (deserializeEngines uuid n doc)
          \<and> (\<forall>j. i < j \<and> j < length ?arr \<and> ?P (?arr ! j)
               \<longrightarrow> k < n + length (filter ?P (take j ?arr))
                   \<and> id' (fst (deserializeEngines uuid n doc) ! j)
                       = take 8 (uuid (n + length (filter ?P (take j ?arr)))))"
      by simp
  qed
  from a b c d total show ?thesis by blast
qed

theorem deserializeEngines_id_witness:
  "map id' (fst (deserializeEngines example_uuid 0 legacy_doc))
     = [qstr ''abc'', qstr ''legacy01'', qstr ''00000000'', qstr ''00000001'']
   \<and> id' (fst (deserializeEngines example_uuid 0 legacy_doc) ! 0) = qstr ''abc''
   \<and> id' (fst (deserializeEngines example_uuid 0 legacy_doc) ! 1) = qstr ''legacy01''
   \<and> adopted_id (toObject (document_array legacy_doc ! 2)) = []
   \<and> id' (fst (deserializeEngines example_uuid 0 legacy_doc) ! 2) = take 8 (example_uuid 0)
   \<and> adopted_id (toObject (document_array legacy_doc ! 3)) = []
   \<and> id' (fst (deserializeEngines example_uuid 0 legacy_doc) ! 3) = take 8 (example_uuid 1)
   \<and> snd (deserializeEngines example_uuid 0 legacy_doc) = 2"
proof -
  let ?P = "\<lambda>v. adopted_id (toObject v) = []"
  have h: "0 < length (document_array legacy_doc)" "1 < length (document_array legacy_doc)"
    "2 < length (document_array legacy_doc)" "3 < length (document_array legacy_doc)"
    by (simp_all add: legacy_doc_def document_array_def)
  have v: "map id' (fst (deserializeEngines example_uuid 0 legacy_doc))
     = [qstr ''abc'', qstr ''legacy01'', qstr ''00000000'', qstr ''00000001'']"
    by code_simp
  have i0: "map_of (toObject (document_array legacy_doc ! 0)) CK_ENGINE_ID = Some (JString (qstr ''abc''))"
    "qstr ''abc'' \<noteq> []"
    by code_simp+
  have i1: "map_of (toObject (document_array legacy_doc ! 1)) CK_ENGINE_ID = None"
    "map_of (toObject (document_array legacy_doc ! 1)) CK_ENGINE_GUID = Some (JString (qstr ''legacy01''))"
    "qstr ''legacy01'' \<noteq> []"
    by code_simp+
  have i2: "adopted_id (toObject (document_array legacy_doc ! 2)) = []"
    "(0::nat) = 0 + length (filter ?P (take 2 (document_array legacy_doc)))"
    by code_simp+
  have i3: "adopted_id (toObject (document_array legacy_doc ! 3)) = []"
    "(1::nat) = 0 + length (filter ?P (take 3 (document_array legacy_doc)))"
    by code_simp+
  have c: "(0::nat) = 0 + length (filter ?P (take 0 (document_array legacy_doc)))"
    "(0::nat) = 0 + length (filter ?P (take 1 (document_array legacy_doc)))"
    by code_simp+
  have t: "length (filter ?P (document_array legacy_doc)) = 2"
    by code_simp
  from deserializeEngines_id [OF h(1) refl refl c(1), of example_uuid] i0
  have r0: "id' (fst (deserializeEngines example_uuid 0 legacy_doc) ! 0) = qstr ''abc''"
    by blast
  from deserializeEngines_id [OF h(2) refl refl c(2), of example_uuid] i1
  have r1: "id' (fst (deserializeEngines example_uuid 0 legacy_doc) ! 1) = qstr ''legacy01''"
    by blast
  from deserializeEngines_id [OF h(3) refl refl i2(2), of example_uuid] i2(1)
  have r2: "id' (fst (deserializeEngines example_uuid 0 legacy_doc) ! 2) = take 8 (example_uuid 0)"
    by blast
  from deserializeEngines_id [OF h(4) refl refl i3(2), of example_uuid] i3(1)
  have r3: "id' (fst (deserializeEngines example_uuid 0 legacy_doc) ! 3) = take 8 (example_uuid 1)"
    by blast
  from deserializeEngines_id [OF h(1) refl refl c(1), of example_uuid] t
  have r4: "snd (deserializeEngines example_uuid 0 legacy_doc) = 2"
    by simp
  from v r0 r1 i2(1) r2 i3(1) r3 r4 show ?thesis by blast
qed

subsection \<open>Fallbacks\<close>

lemma fallbackLoop_eq:
  "q \<noteq> [] \<Longrightarrow> fallbackLoop lib q es = map (\<lambda>e. buildItem lib e q) (filter fallback es)"
  by (induction es) simp_all

text \<open>
  C7, as the code has it. \<^verbatim>\<open>fallbacks\<close> returns no item for the empty query: the guard
  \<^verbatim>\<open>!query.isEmpty()\<close> is around the loop, so the placeholder of the inner conditional is
  never used. For a query that is not empty it returns one item per engine with
  \<open>fallback\<close> set, in the order of the store, built with the query as the search term.
\<close>

theorem fallbacks_nonempty_query_only:
  "fallbacks lib q st =
     (if q = [] then [] else map (\<lambda>e. buildItem lib e q) (filter fallback (searchEngines st)))"
  by (simp add: fallbacks_def fallbackLoop_eq)

text \<open>
  C7 as stated fails: the store holds one engine with \<open>fallback\<close> set, and the empty query
  gets no item.
\<close>

theorem fallbacks_empty_query_counterexample:
  "filter fallback (searchEngines (setEngines [google] (fresh_plugin Unopenable True Unopenable)))
     = [google]
   \<and> fallbacks (example_library 1) [] (setEngines [google] (fresh_plugin Unopenable True Unopenable)) = []"
  by (simp add: fallbacks_def searchEngines_setEngines std_sort_def google_def)

subsection \<open>Loading\<close>

text \<open>
  C8 as stated fails for corrupt content: the configuration file opens, its bytes are not
  JSON, and the constructor stores the empty list (and writes it back), although
  \<^verbatim>\<open>restoreDefaultEngines\<close> would have stored the default engine.
\<close>

theorem Plugin_corrupt_config_counterexample:
  "config_file corrupt_config = Document None
   \<and> engines (Plugin corrupt_config) = []
   \<and> config_file (Plugin corrupt_config) = Document (Some (JArray []))
   \<and> map name (engines (restoreDefaultEngines corrupt_config)) = [qstr ''Google'']"
  by code_simp

text \<open>
  C8, as the code has it. When the configuration file cannot be opened for reading the
  constructor does what \<^verbatim>\<open>restoreDefaultEngines\<close> does. When it opens, the store is the
  deserialized list, sorted; a content that is not a JSON array (corrupt bytes included)
  gives the empty store, which is written back when the file opens for writing.
\<close>

theorem Plugin_load:
  "(config_file st = Unopenable \<longrightarrow> Plugin st = restoreDefaultEngines st)
   \<and> (config_file st = Document doc \<longrightarrow>
        engines (Plugin st) =
          std_sort (\<lambda>a b. name a < name b)
            (fst (deserializeEngines (uuid_supply st) (uuid_count st) doc)))
   \<and> (config_file st = Document doc \<and> document_array doc = [] \<longrightarrow>
        engines (Plugin st) = []
        \<and> (config_writable st \<longrightarrow> config_file (Plugin st) = Document (Some (JArray []))))"
proof -
  have a: "config_file st = Unopenable \<longrightarrow> Plugin st = restoreDefaultEngines st"
    by (simp add: Plugin_Unopenable)
  have b: "config_file st = Document doc \<longrightarrow>
        engines (Plugin st) =
          std_sort (\<lambda>a b. name a < name b)
            (fst (deserializeEngines (uuid_supply st) (uuid_count st) doc))"
    by (simp add: engines_Plugin)
  have c: "config_file st = Document doc \<and> document_array doc = [] \<longrightarrow>
        engines (Plugin st) = []
        \<and> (config_writable st \<longrightarrow> config_file (Plugin st) = Document (Some (JArray [])))"
    by (simp add: engines_def searchEngines_setEngines deserializeEngines_def std_sort_def
        Plugin_def config_file_setEngines serializeEngines_def)
  from a b c show ?thesis by blast
qed

theorem Plugin_load_witness:
  "config_file (fresh_plugin Unopenable True (Document (Some spaced_defaults))) = Unopenable
   \<and> Plugin (fresh_plugin Unopenable True (Document (Some spaced_defaults)))
       = restoreDefaultEngines (fresh_plugin Unopenable True (Document (Some spaced_defaults)))
   \<and> map name (engines (Plugin (fresh_plugin Unopenable True (Document (Some spaced_defaults)))))
       = [qstr ''Google'']
   \<and> config_file corrupt_config = Document None \<and> document_array None = []
   \<and> engines (Plugin corrupt_config) = []"
proof -
  have h1: "config_file (fresh_plugin Unopenable True (Document (Some spaced_defaults))) = Unopenable"
    by (simp add: fresh_plugin_def)
  have h2: "config_file corrupt_config = Document None" "config_writable corrupt_config"
    by (simp_all add: corrupt_config_def fresh_plugin_def)
  have h3: "document_array None = []"
    by (simp add: document_array_def)
  have v: "map name (engines (restoreDefaultEngines (fresh_plugin Unopenable True (Document (Some spaced_defaults)))))
       = [qstr ''Google'']"
    by code_simp
  from Plugin_load [of "fresh_plugin Unopenable True (Document (Some spaced_defaults))" None] h1
  have p1: "Plugin (fresh_plugin Unopenable True (Document (Some spaced_defaults)))
       = restoreDefaultEngines (fresh_plugin Unopenable True (Document (Some spaced_defaults)))"
    by blast
  from Plugin_load [of corrupt_config None] h2 h3
  have p2: "engines (Plugin corrupt_config) = []"
    by blast
  from h1 h2 h3 v p1 p2 show ?thesis by simp
qed

subsection \<open>Ranking\<close>

lemma candidates_eq:
  "candidates e =
     (if length (name e) < length (trigger e) then [name e, trigger e] else [trigger e, name e])"
  by (simp add: candidates_def std_sort_def)

lemma length_space: "length (qstr '' '') = 1"
  by (simp add: qstr_def)

lemma rankLoop_append: "rankLoop lib q (xs @ ys) = rankLoop lib q xs @ rankLoop lib q ys"
  by (induction xs) (simp_all split: option.split)

lemma rankLoop_length: "length (rankLoop lib q es) \<le> length es"
  by (induction es) (simp_all split: option.split)

lemma rankLoop_member:
  "e \<in> set es \<Longrightarrow> tryCandidates lib q e (candidates e) = Some r \<Longrightarrow> r \<in> set (rankLoop lib q es)"
  by (induction es) (auto split: option.split)

lemma matchCandidate_Matcher_match:
  "matcher lib = Matcher_match M \<Longrightarrow>
   matchCandidate lib q e s =
     (if take (length (toLower lib s) + 1) (toLower lib q) \<noteq> []
         \<and> prefix (take (length (toLower lib s) + 1) (toLower lib q)) (toLower lib s @ qstr '' '')
      then Some \<lparr> item = buildItem lib e
                    (drop (length (take (length (toLower lib s) + 1) (toLower lib q))) q),
                  score = M * of_nat (length (take (length (toLower lib s) + 1) (toLower lib q)))
                            / of_nat (length (toLower lib s) + 1) \<rparr>
      else None)"
  by (simp add: matchCandidate_def Matcher_match_def Let_def length_space)

lemma matchCandidate_Some:
  "matchCandidate lib q e s = Some r \<Longrightarrow>
   matcher lib (take (length (toLower lib s) + 1) (toLower lib q)) (toLower lib s @ qstr '' '')
     = Some (score r)
   \<and> item r = buildItem lib e (drop (length (take (length (toLower lib s) + 1) (toLower lib q))) q)"
  by (auto simp: matchCandidate_def Let_def length_space split: option.splits)

text \<open>
  C1, as the code has it, with the matcher of the spec. Let \<open>p\<close> be the lowercased query cut
  to the length of the trigger plus one. If lowercasing keeps the length of the trigger,
  \<open>p\<close> is not empty and is a prefix of the lowercased trigger followed by a space, and the
  name is not a strictly shorter candidate that matches as well, then the ranking holds a
  match for the engine with score \<open>MAX_SCORE * length p / (length trigger + 1)\<close> whose search
  term is the query without its first \<open>length p\<close> characters. In particular the query
  \<open>trigger @ '' '' @ anything\<close>, when its lowercase starts with the lowercased trigger and the
  space, gets the score \<open>MAX_SCORE\<close> and the search term \<open>anything\<close>.
\<close>

theorem rankItems_trigger_prefix:
  assumes "e \<in> set (searchEngines st)"
    and "matcher lib = Matcher_match MAX_SCORE"
    and "length (toLower lib (trigger e)) = length (trigger e)"
    and "p = take (length (trigger e) + 1) (toLower lib q)"
    and "p \<noteq> []"
    and "prefix p (toLower lib (trigger e) @ qstr '' '')"
    and "\<not> (length (name e) < length (trigger e)
            \<and> take (length (toLower lib (name e)) + 1) (toLower lib q) \<noteq> []
            \<and> prefix (take (length (toLower lib (name e)) + 1) (toLower lib q))
                 (toLower lib (name e) @ qstr '' ''))"
  shows "\<lparr> item = buildItem lib e (drop (length p) q),
           score = MAX_SCORE * of_nat (length p) / of_nat (length (trigger e) + 1) \<rparr>
           \<in> set (rankItems lib q st)
         \<and> (q = trigger e @ qstr '' '' @ anything
             \<and> take (length (trigger e) + 1) (toLower lib q) = toLower lib (trigger e) @ qstr '' ''
            \<longrightarrow> \<lparr> item = buildItem lib e anything, score = MAX_SCORE \<rparr>
                  \<in> set (rankItems lib q st))"
proof -
  let ?r = "\<lparr> item = buildItem lib e (drop (length p) q),
           score = MAX_SCORE * of_nat (length p) / of_nat (length (trigger e) + 1) \<rparr>"
  have t: "matchCandidate lib q e (trigger e) = Some ?r"
    using assms(3,4,5,6) by (simp add: matchCandidate_Matcher_match [OF assms(2)])
  have "tryCandidates lib q e (candidates e) = Some ?r"
  proof (cases "length (name e) < length (trigger e)")
    case True
    with assms(7) have "matchCandidate lib q e (name e) = None"
      by (simp add: matchCandidate_Matcher_match [OF assms(2)])
    with True t show ?thesis by (simp add: candidates_eq)
  next
    case False
    with t show ?thesis by (simp add: candidates_eq)
  qed
  with assms(1) have main: "?r \<in> set (rankItems lib q st)"
    by (simp add: rankItems_def rankLoop_member)
  have "q = trigger e @ qstr '' '' @ anything
             \<and> take (length (trigger e) + 1) (toLower lib q) = toLower lib (trigger e) @ qstr '' ''
            \<longrightarrow> \<lparr> item = buildItem lib e anything, score = MAX_SCORE \<rparr>
                  \<in> set (rankItems lib q st)"
  proof
    assume q: "q = trigger e @ qstr '' '' @ anything
             \<and> take (length (trigger e) + 1) (toLower lib q) = toLower lib (trigger e) @ qstr '' ''"
    from q have q1: "q = trigger e @ qstr '' '' @ anything" by (rule conjunct1)
    from q have q2: "take (length (trigger e) + 1) (toLower lib q)
        = toLower lib (trigger e) @ qstr '' ''" by (rule conjunct2)
    have "p = toLower lib (trigger e) @ qstr '' ''"
      unfolding assms(4) by (rule q2)
    then have "length p = length (trigger e) + 1"
      using assms(3) by (simp add: length_space)
    then have "?r = \<lparr> item = buildItem lib e anything, score = MAX_SCORE \<rparr>"
      using q1 by (simp add: length_space)
    with main show "\<lparr> item = buildItem lib e anything, score = MAX_SCORE \<rparr>
                \<in> set (rankItems lib q st)" by simp
  qed
  with main show ?thesis by blast
qed

theorem rankItems_trigger_prefix_witness:
  "google \<in> set (searchEngines (setEngines [youtube, google] (fresh_plugin Unopenable True Unopenable)))
   \<and> length (toLower (example_library 65535) (trigger google)) = length (trigger google)
   \<and> take (length (trigger google) + 1) (toLower (example_library 65535) (qstr ''G'')) = qstr ''g''
   \<and> prefix (qstr ''g'') (toLower (example_library 65535) (trigger google) @ qstr '' '')
   \<and> \<not> length (name google) < length (trigger google)
   \<and> \<lparr> item = buildItem (example_library 65535) google [], score = 65535 * 1 / 3 \<rparr>
       \<in> set (rankItems (example_library 65535) (qstr ''G'')
               (setEngines [youtube, google] (fresh_plugin Unopenable True Unopenable)))
   \<and> \<lparr> item = buildItem (example_library 65535) google (qstr ''banana''), score = 65535 \<rparr>
       \<in> set (rankItems (example_library 65535) (qstr ''gg banana'')
               (setEngines [youtube, google] (fresh_plugin Unopenable True Unopenable)))"
proof -
  let ?lib = "example_library 65535"
  let ?st = "setEngines [youtube, google] (fresh_plugin Unopenable True Unopenable)"
  have h1: "google \<in> set (searchEngines ?st)"
    by (simp add: searchEngines_setEngines std_sort_set)
  have h2: "matcher ?lib = Matcher_match 65535"
    by (simp add: example_library_def)
  have h3: "length (toLower ?lib (trigger google)) = length (trigger google)"
    by code_simp
  have p: "qstr ''g'' = take (length (trigger google) + 1) (toLower ?lib (qstr ''G''))"
    "qstr ''gg '' = take (length (trigger google) + 1) (toLower ?lib (qstr ''gg banana''))"
    by code_simp+
  have h5: "qstr ''g'' \<noteq> []" "qstr ''gg '' \<noteq> []"
    by (simp_all add: qstr_def)
  have h6: "prefix (qstr ''g'') (toLower ?lib (trigger google) @ qstr '' '')"
    "prefix (qstr ''gg '') (toLower ?lib (trigger google) @ qstr '' '')"
    by code_simp+
  have h7: "\<not> length (name google) < length (trigger google)"
    by (simp add: google_def qstr_def)
  have h7a: "\<not> (length (name google) < length (trigger google)
            \<and> take (length (toLower ?lib (name google)) + 1) (toLower ?lib (qstr ''G'')) \<noteq> []
            \<and> prefix (take (length (toLower ?lib (name google)) + 1) (toLower ?lib (qstr ''G'')))
                 (toLower ?lib (name google) @ qstr '' ''))"
    "\<not> (length (name google) < length (trigger google)
            \<and> take (length (toLower ?lib (name google)) + 1) (toLower ?lib (qstr ''gg banana'')) \<noteq> []
            \<and> prefix (take (length (toLower ?lib (name google)) + 1) (toLower ?lib (qstr ''gg banana'')))
                 (toLower ?lib (name google) @ qstr '' ''))"
    using h7 by simp_all
  have q: "qstr ''gg banana'' = trigger google @ qstr '' '' @ qstr ''banana''"
    "take (length (trigger google) + 1) (toLower ?lib (qstr ''gg banana''))
       = toLower ?lib (trigger google) @ qstr '' ''"
    by code_simp+
  have l: "length (qstr ''g'') = 1" "length (trigger google) = 2" "drop (Suc 0) (qstr ''G'') = []"
    by (simp_all add: qstr_def google_def)
  from rankItems_trigger_prefix [OF h1 h2 h3 p(1) h5(1) h6(1) h7a(1)]
  have "\<lparr> item = buildItem ?lib google (drop (length (qstr ''g'')) (qstr ''G'')),
           score = 65535 * of_nat (length (qstr ''g'')) / of_nat (length (trigger google) + 1) \<rparr>
           \<in> set (rankItems ?lib (qstr ''G'') ?st)"
    by (rule conjunct1)
  then have r1: "\<lparr> item = buildItem ?lib google [], score = 65535 * 1 / 3 \<rparr>
       \<in> set (rankItems ?lib (qstr ''G'') ?st)"
    by (simp add: l)
  from rankItems_trigger_prefix [OF h1 h2 h3 p(2) h5(2) h6(2) h7a(2), of "qstr ''banana''"] q
  have r2: "\<lparr> item = buildItem ?lib google (qstr ''banana''), score = 65535 \<rparr>
       \<in> set (rankItems ?lib (qstr ''gg banana'') ?st)"
    by blast
  from h1 h3 p(1) h6(1) h7 r1 r2 show ?thesis by simp
qed

text \<open>
  C1 as stated fails in three ways. The name is the shorter candidate and matches too: the
  engine has the trigger \<open>gg\<close> and the name \<open>g\<close>, the query is \<open>g\<close>; the only match has the
  score of the name, one half, where C1 has one third. The query is empty: its cut is a
  prefix of every keyword, and the ranking is empty. Lowercasing makes the trigger longer:
  the trigger is U+0130, the query is the trigger, a space and \<open>x\<close>; the cut of the
  lowercased query to two characters is a prefix of the keyword, the only match has the
  empty search term, where C1 has \<open>x\<close>.
\<close>

theorem rankItems_shorter_name_counterexample:
  "short_name \<in> set (searchEngines (setEngines [short_name] (fresh_plugin Unopenable True Unopenable)))
   \<and> trigger short_name \<noteq> []
   \<and> prefix (take (length (trigger short_name) + 1) (toLower (example_library 1) (qstr ''g'')))
        (toLower (example_library 1) (trigger short_name) @ qstr '' '')
   \<and> map score (rankItems (example_library 1) (qstr ''g'')
        (setEngines [short_name] (fresh_plugin Unopenable True Unopenable))) = [1 / 2]
   \<and> (1::rat) * of_nat (length (take (length (trigger short_name) + 1)
                                  (toLower (example_library 1) (qstr ''g''))))
        / of_nat (length (trigger short_name) + 1) = 1 / 3
   \<and> google \<in> set (searchEngines (setEngines [google] (fresh_plugin Unopenable True Unopenable)))
   \<and> trigger google \<noteq> []
   \<and> prefix (take (length (trigger google) + 1) (toLower (example_library 1) []))
        (toLower (example_library 1) (trigger google) @ qstr '' '')
   \<and> rankItems (example_library 1) []
        (setEngines [google] (fresh_plugin Unopenable True Unopenable)) = []
   \<and> dotted_trigger
        \<in> set (searchEngines (setEngines [dotted_trigger] (fresh_plugin Unopenable True Unopenable)))
   \<and> trigger dotted_trigger \<noteq> []
   \<and> prefix (take (length (trigger dotted_trigger) + 1)
               (toLower (example_library 1) (trigger dotted_trigger @ qstr '' '' @ qstr ''x'')))
        (toLower (example_library 1) (trigger dotted_trigger) @ qstr '' '')
   \<and> rankItems (example_library 1) (trigger dotted_trigger @ qstr '' '' @ qstr ''x'')
        (setEngines [dotted_trigger] (fresh_plugin Unopenable True Unopenable))
       = [\<lparr> item = buildItem (example_library 1) dotted_trigger [], score = 1 \<rparr>]
   \<and> drop (length (take (length (trigger dotted_trigger) + 1)
               (toLower (example_library 1) (trigger dotted_trigger @ qstr '' '' @ qstr ''x''))))
        (trigger dotted_trigger @ qstr '' '' @ qstr ''x'') = qstr ''x''
   \<and> buildItem (example_library 1) dotted_trigger []
        \<noteq> buildItem (example_library 1) dotted_trigger (qstr ''x'')"
  by code_simp

text \<open>
  C2. For any matcher: when the trigger and the name of an engine both match the query, the
  engine contributes exactly one item to the ranking, at its place in the order of the store,
  and it is the item computed from the shorter of the two candidates (from the trigger when
  both have the same length). The ranking never has more items than the store has engines.
\<close>

theorem rankItems_shortest_candidate_first:
  assumes "matchCandidate lib q e (trigger e) = Some rt"
    and "matchCandidate lib q e (name e) = Some rn"
    and "searchEngines st = es1 @ e # es2"
  shows "rankItems lib q st =
           rankLoop lib q es1 @ [if length (name e) < length (trigger e) then rn else rt]
             @ rankLoop lib q es2
         \<and> length (rankItems lib q st) \<le> length (searchEngines st)"
proof -
  have "tryCandidates lib q e (candidates e)
          = Some (if length (name e) < length (trigger e) then rn else rt)"
    using assms(1,2) by (simp add: candidates_eq)
  then have "rankLoop lib q (e # es2)
          = (if length (name e) < length (trigger e) then rn else rt) # rankLoop lib q es2"
    by simp
  then have "rankItems lib q st =
      rankLoop lib q es1 @ [if length (name e) < length (trigger e) then rn else rt]
        @ rankLoop lib q es2"
    using assms(3) by (simp add: rankItems_def rankLoop_append del: rankLoop.simps)
  moreover have "length (rankItems lib q st) \<le> length (searchEngines st)"
    by (simp add: rankItems_def rankLoop_length)
  ultimately show ?thesis by blast
qed

theorem rankItems_shortest_candidate_first_witness:
  "matchCandidate (example_library 1) (qstr ''g'') short_name (trigger short_name)
     = Some \<lparr> item = buildItem (example_library 1) short_name [], score = 1 / 3 \<rparr>
   \<and> matchCandidate (example_library 1) (qstr ''g'') short_name (name short_name)
     = Some \<lparr> item = buildItem (example_library 1) short_name [], score = 1 / 2 \<rparr>
   \<and> searchEngines (setEngines [short_name, google] (fresh_plugin Unopenable True Unopenable))
     = [google, short_name]
   \<and> rankItems (example_library 1) (qstr ''g'')
        (setEngines [short_name, google] (fresh_plugin Unopenable True Unopenable))
     = [\<lparr> item = buildItem (example_library 1) google [], score = 1 / 3 \<rparr>,
        \<lparr> item = buildItem (example_library 1) short_name [], score = 1 / 2 \<rparr>]"
proof -
  let ?lib = "example_library 1"
  let ?st = "setEngines [short_name, google] (fresh_plugin Unopenable True Unopenable)"
  have h1: "matchCandidate ?lib (qstr ''g'') short_name (trigger short_name)
     = Some \<lparr> item = buildItem ?lib short_name [], score = 1 / 3 \<rparr>"
    by code_simp
  have h2: "matchCandidate ?lib (qstr ''g'') short_name (name short_name)
     = Some \<lparr> item = buildItem ?lib short_name [], score = 1 / 2 \<rparr>"
    by code_simp
  have h3: "searchEngines ?st = [google] @ short_name # []"
    by code_simp
  have g: "rankLoop ?lib (qstr ''g'') [google] = [\<lparr> item = buildItem ?lib google [], score = 1 / 3 \<rparr>]"
    by code_simp
  have l: "length (name short_name) < length (trigger short_name)"
    by (simp add: short_name_def qstr_def)
  from rankItems_shortest_candidate_first [OF h1 h2 h3] g l
  have "rankItems ?lib (qstr ''g'') ?st
     = [\<lparr> item = buildItem ?lib google [], score = 1 / 3 \<rparr>,
        \<lparr> item = buildItem ?lib short_name [], score = 1 / 2 \<rparr>]"
    by simp
  with h1 h2 h3 show ?thesis by simp
qed

text \<open>
  C6, as the code has it. For any matcher: an engine with an empty trigger still has two
  candidates, the empty trigger first. Its keyword is a single space and is tested against
  the first character of the lowercased query; a match there is the engine's item, and only
  when it does not match is the name tested.
\<close>

theorem rankItems_empty_trigger_tested:
  assumes "trigger e = []"
  shows "candidates e = [[], name e]
    \<and> rankItems lib q (st\<lparr> searchEngines := [e] \<rparr>) =
        (case matcher lib (take 1 (toLower lib q)) (qstr '' '') of
           Some sc \<Rightarrow>
             [\<lparr> item = buildItem lib e (drop (length (take 1 (toLower lib q))) q), score = sc \<rparr>]
         | None \<Rightarrow> (case matchCandidate lib q e (name e) of Some r \<Rightarrow> [r] | None \<Rightarrow> []))"
proof -
  have c: "candidates e = [[], name e]"
    using assms by (simp add: candidates_eq)
  have k: "toLower lib [] @ qstr '' '' = qstr '' ''"
    by (simp add: toLower_def)
  have m: "matchCandidate lib q e [] =
      (case matcher lib (take 1 (toLower lib q)) (qstr '' '') of
         Some sc \<Rightarrow>
           Some \<lparr> item = buildItem lib e (drop (length (take 1 (toLower lib q))) q), score = sc \<rparr>
       | None \<Rightarrow> None)"
    unfolding matchCandidate_def Let_def k by (simp add: length_space split: option.split)
  show ?thesis
    using c by (simp add: rankItems_def m split: option.split)
qed

theorem rankItems_empty_trigger_tested_witness:
  "trigger no_trigger = []
   \<and> candidates no_trigger = [[], name no_trigger]
   \<and> rankItems (example_library 1) (qstr ''goo'')
        ((fresh_plugin Unopenable True Unopenable)\<lparr> searchEngines := [no_trigger] \<rparr>)
       = [\<lparr> item = buildItem (example_library 1) no_trigger [], score = 3 / 7 \<rparr>]"
proof -
  have h: "trigger no_trigger = []" by (simp add: no_trigger_def)
  have a: "matcher (example_library 1) (take 1 (toLower (example_library 1) (qstr ''goo''))) (qstr '' '')
      = None" by code_simp
  have b: "matchCandidate (example_library 1) (qstr ''goo'') no_trigger (name no_trigger)
      = Some \<lparr> item = buildItem (example_library 1) no_trigger [], score = 3 / 7 \<rparr>" by code_simp
  from rankItems_empty_trigger_tested [OF h, of "example_library 1" "qstr ''goo''"
      "fresh_plugin Unopenable True Unopenable"] a b h
  show ?thesis by simp
qed

text \<open>
  C6 as stated fails: the candidates of an engine without a trigger include the empty string,
  and the query \<open>'' x''\<close>, which the name does not match, is matched through it.
\<close>

theorem rankItems_empty_trigger_counterexample:
  "trigger no_trigger = []
   \<and> candidates no_trigger = [[], qstr ''Google'']
   \<and> matchCandidate (example_library 1) (qstr '' x'') no_trigger (name no_trigger) = None
   \<and> rankItems (example_library 1) (qstr '' x'')
        (setEngines [no_trigger] (fresh_plugin Unopenable True Unopenable))
       = [\<lparr> item = buildItem (example_library 1) no_trigger (qstr ''x''), score = 1 \<rparr>]"
  by code_simp

subsection \<open>Triggers\<close>

lemma map_trigger_deserializeLoop:
  "map trigger (fst (deserializeLoop uuid n vs))
     = map (\<lambda>v. trimmed (toString (at_key (toObject v) CK_ENGINE_TRIGGER))) vs"
  by (induction vs arbitrary: n)
    (simp_all add: deserializeLoop_Cons deserializeEngine_def Let_def del: deserializeLoop.simps(2))

lemma map_trigger_defaultLoop:
  "map trigger (fst (defaultLoop uuid n vs))
     = map (\<lambda>v. toString (at_key (toObject v) CK_ENGINE_TRIGGER)) vs"
  by (induction vs arbitrary: n)
    (simp_all add: defaultLoop_Cons defaultEngine_def Let_def del: defaultLoop.simps(2))

lemma mset_map_std_sort: "mset (map f (std_sort lt xs)) = mset (map f xs)"
  by (metis mset_map mset_std_sort)

lemma trimmed_ends:
  "trimmed s = [] \<or> (\<not> isSpace (hd (trimmed s)) \<and> \<not> isSpace (last (trimmed s)))"
proof (cases "trimmed s = []")
  case True
  then show ?thesis by simp
next
  case False
  let ?a = "dropWhile isSpace s"
  let ?b = "dropWhile isSpace (rev ?a)"
  have b: "?b \<noteq> []" using False by (simp add: trimmed_def)
  have a: "?a \<noteq> []"
  proof
    assume e: "?a = []"
    have "?b = []" unfolding e by simp
    with b show False by contradiction
  qed
  have 1: "\<not> isSpace (hd ?b)" using b by (rule hd_dropWhile)
  have 2: "\<not> isSpace (hd ?a)" using a by (rule hd_dropWhile)
  have "rev ?a = takeWhile isSpace (rev ?a) @ ?b" by simp
  then have "last (rev ?a) = last ?b" using b by (metis last_appendR)
  then have 3: "last ?b = hd ?a" using a by (simp add: last_rev)
  from 1 2 3 b show ?thesis by (simp add: trimmed_def hd_rev last_rev)
qed

lemma tryCandidates_keyword:
  assumes "tryCandidates lib q e (candidates e) = Some r"
  shows "matcher lib (take (length (toLower lib (trigger e)) + 1) (toLower lib q))
             (toLower lib (trigger e) @ qstr '' '') = Some (score r)
         \<or> matcher lib (take (length (toLower lib (name e)) + 1) (toLower lib q))
             (toLower lib (name e) @ qstr '' '') = Some (score r)"
proof -
  from assms have "matchCandidate lib q e (trigger e) = Some r
      \<or> matchCandidate lib q e (name e) = Some r"
    by (auto simp: candidates_eq split: if_splits option.splits)
  then show ?thesis
    using matchCandidate_Some [of lib q e "trigger e" r] matchCandidate_Some [of lib q e "name e" r]
    by blast
qed

text \<open>
  C9, as the code has it. Only the deserialization of the user configuration strips the
  trigger: the triggers in the store after the constructor read a document are the trimmed
  \<open>trigger\<close> strings of its records. \<^verbatim>\<open>restoreDefaultEngines\<close> stores the \<open>trigger\<close>
  strings of the defaults as they are, and \<^verbatim>\<open>setEngines\<close> stores the triggers it is
  given as they are. A trimmed string is empty or starts and ends with a character that is
  not whitespace. Matching uses the trigger as stored: the candidates of an engine are its
  trigger and its name, unchanged, and an engine's match comes from the matcher's answer for
  the keyword made of the lowercased stored trigger (or name) and a space.
\<close>

theorem trigger_trimmed_on_config_load_only:
  "(config_file st = Document doc \<longrightarrow>
      mset (map trigger (engines (Plugin st)))
        = mset (map (\<lambda>v. trimmed (toString (at_key (toObject v) CK_ENGINE_TRIGGER)))
                 (document_array doc)))
   \<and> (defaults_file st = Document doc \<longrightarrow>
      mset (map trigger (engines (restoreDefaultEngines st)))
        = mset (map (\<lambda>v. toString (at_key (toObject v) CK_ENGINE_TRIGGER)) (document_array doc)))
   \<and> mset (map trigger (engines (setEngines es st))) = mset (map trigger es)
   \<and> (trimmed s = [] \<or> (\<not> isSpace (hd (trimmed s)) \<and> \<not> isSpace (last (trimmed s))))
   \<and> mset (candidates e) = {#trigger e, name e#}
   \<and> (tryCandidates lib q e (candidates e) = Some r \<longrightarrow>
        matcher lib (take (length (toLower lib (trigger e)) + 1) (toLower lib q))
            (toLower lib (trigger e) @ qstr '' '') = Some (score r)
        \<or> matcher lib (take (length (toLower lib (name e)) + 1) (toLower lib q))
            (toLower lib (name e) @ qstr '' '') = Some (score r))"
proof -
  have a: "config_file st = Document doc \<longrightarrow>
      mset (map trigger (engines (Plugin st)))
        = mset (map (\<lambda>v. trimmed (toString (at_key (toObject v) CK_ENGINE_TRIGGER)))
                 (document_array doc))"
    by (simp add: engines_Plugin mset_map_std_sort deserializeEngines_def
        map_trigger_deserializeLoop del: mset_map)
  have b: "defaults_file st = Document doc \<longrightarrow>
      mset (map trigger (engines (restoreDefaultEngines st)))
        = mset (map (\<lambda>v. toString (at_key (toObject v) CK_ENGINE_TRIGGER)) (document_array doc))"
    by (simp add: engines_restoreDefaultEngines mset_map_std_sort map_trigger_defaultLoop
        del: mset_map)
  have c: "mset (map trigger (engines (setEngines es st))) = mset (map trigger es)"
    by (simp add: engines_def searchEngines_setEngines mset_map_std_sort del: mset_map)
  have d: "mset (candidates e) = {#trigger e, name e#}"
    by (simp add: candidates_eq)
  have f: "tryCandidates lib q e (candidates e) = Some r \<longrightarrow>
        matcher lib (take (length (toLower lib (trigger e)) + 1) (toLower lib q))
            (toLower lib (trigger e) @ qstr '' '') = Some (score r)
        \<or> matcher lib (take (length (toLower lib (name e)) + 1) (toLower lib q))
            (toLower lib (name e) @ qstr '' '') = Some (score r)"
    using tryCandidates_keyword [of lib q e r] by blast
  from a b c d f trimmed_ends [of s] show ?thesis by blast
qed

theorem trigger_trimmed_on_config_load_only_witness:
  "config_file (fresh_plugin (Document (Some spaced_defaults)) True (Document (Some spaced_defaults)))
     = Document (Some spaced_defaults)
   \<and> defaults_file (fresh_plugin (Document (Some spaced_defaults)) True (Document (Some spaced_defaults)))
     = Document (Some spaced_defaults)
   \<and> mset (map trigger (engines (Plugin
        (fresh_plugin (Document (Some spaced_defaults)) True (Document (Some spaced_defaults))))))
     = {#qstr ''gg''#}
   \<and> mset (map trigger (engines (restoreDefaultEngines
        (fresh_plugin (Document (Some spaced_defaults)) True (Document (Some spaced_defaults))))))
     = {#qstr ''gg ''#}
   \<and> config_file (fresh_plugin (Document (Some nbsp_config)) True Unopenable)
     = Document (Some nbsp_config)
   \<and> mset (map trigger (engines (Plugin (fresh_plugin (Document (Some nbsp_config)) True Unopenable))))
     = {#qstr ''dd''#}
   \<and> tryCandidates (example_library 1) (qstr ''g'') short_name (candidates short_name)
     = Some \<lparr> item = buildItem (example_library 1) short_name [], score = 1 / 2 \<rparr>
   \<and> matcher (example_library 1) (qstr ''g'') (qstr ''g '') = Some (1 / 2)"
proof -
  let ?st = "fresh_plugin (Document (Some spaced_defaults)) True (Document (Some spaced_defaults))"
  let ?st2 = "fresh_plugin (Document (Some nbsp_config)) True Unopenable"
  let ?lib = "example_library 1"
  have h: "config_file ?st = Document (Some spaced_defaults)"
    "defaults_file ?st = Document (Some spaced_defaults)"
    "config_file ?st2 = Document (Some nbsp_config)"
    by (simp_all add: fresh_plugin_def)
  have v: "map (\<lambda>v. trimmed (toString (at_key (toObject v) CK_ENGINE_TRIGGER)))
             (document_array (Some spaced_defaults)) = [qstr ''gg'']"
    "map (\<lambda>v. toString (at_key (toObject v) CK_ENGINE_TRIGGER))
             (document_array (Some spaced_defaults)) = [qstr ''gg '']"
    "map (\<lambda>v. trimmed (toString (at_key (toObject v) CK_ENGINE_TRIGGER)))
             (document_array (Some nbsp_config)) = [qstr ''dd'']"
    by code_simp+
  have t: "tryCandidates ?lib (qstr ''g'') short_name (candidates short_name)
     = Some \<lparr> item = buildItem ?lib short_name [], score = 1 / 2 \<rparr>"
    by code_simp
  have k: "take (length (toLower ?lib (trigger short_name)) + 1) (toLower ?lib (qstr ''g'')) = qstr ''g''"
    "take (length (toLower ?lib (name short_name)) + 1) (toLower ?lib (qstr ''g'')) = qstr ''g''"
    "toLower ?lib (trigger short_name) @ qstr '' '' = qstr ''gg ''"
    "toLower ?lib (name short_name) @ qstr '' '' = qstr ''g ''"
    "matcher ?lib (qstr ''g'') (qstr ''gg '') = Some (1 / 3)"
    by code_simp+
  from trigger_trimmed_on_config_load_only [of ?st "Some spaced_defaults"] h
  have r1: "mset (map trigger (engines (Plugin ?st)))
        = mset (map (\<lambda>v. trimmed (toString (at_key (toObject v) CK_ENGINE_TRIGGER)))
                 (document_array (Some spaced_defaults)))"
    and r2: "mset (map trigger (engines (restoreDefaultEngines ?st)))
        = mset (map (\<lambda>v. toString (at_key (toObject v) CK_ENGINE_TRIGGER))
                 (document_array (Some spaced_defaults)))"
    by blast+
  from trigger_trimmed_on_config_load_only [of ?st2 "Some nbsp_config"] h
  have r3: "mset (map trigger (engines (Plugin ?st2)))
        = mset (map (\<lambda>v. trimmed (toString (at_key (toObject v) CK_ENGINE_TRIGGER)))
                 (document_array (Some nbsp_config)))"
    by blast
  from trigger_trimmed_on_config_load_only
    [of ?st None "[]" "[]" short_name ?lib "qstr ''g''"
      "\<lparr> item = buildItem ?lib short_name [], score = 1 / 2 \<rparr>"] t
  have "matcher ?lib (take (length (toLower ?lib (trigger short_name)) + 1) (toLower ?lib (qstr ''g'')))
            (toLower ?lib (trigger short_name) @ qstr '' '') = Some (1 / 2)
        \<or> matcher ?lib (take (length (toLower ?lib (name short_name)) + 1) (toLower ?lib (qstr ''g'')))
            (toLower ?lib (name short_name) @ qstr '' '') = Some (1 / 2)"
    by simp
  then have r4: "matcher ?lib (qstr ''g'') (qstr ''g '') = Some (1 / 2)"
    unfolding k by simp
  from h v r1 r2 r3 t r4 show ?thesis by simp
qed

text \<open>
  C9 as stated fails: \<^verbatim>\<open>setEngines\<close> and \<^verbatim>\<open>restoreDefaultEngines\<close> store a trigger with
  surrounding whitespace unchanged, and matching uses it unchanged. With the trigger
  \<open>''gg ''\<close> from the defaults the keyword ends in two spaces and the query \<open>''gg x''\<close> has
  no match; the same record read from the user configuration is stored with the trigger
  \<open>''gg''\<close> and matches with the search term \<open>x\<close>.
\<close>

theorem trigger_not_trimmed_counterexample:
  "map trigger (engines (setEngines [google\<lparr> trigger := qstr '' gg '' \<rparr>]
       (fresh_plugin Unopenable True Unopenable))) = [qstr '' gg '']
   \<and> map trigger (engines (restoreDefaultEngines
       (fresh_plugin Unopenable True (Document (Some spaced_defaults))))) = [qstr ''gg '']
   \<and> trimmed (qstr '' gg '') = qstr ''gg'' \<and> trimmed (qstr ''gg '') = qstr ''gg''
   \<and> rankItems (example_library 1) (qstr ''gg x'')
        (restoreDefaultEngines (fresh_plugin Unopenable True (Document (Some spaced_defaults)))) = []
   \<and> rankItems (example_library 1) (qstr ''gg x'')
        (Plugin (fresh_plugin (Document (Some spaced_defaults)) True Unopenable))
       = [\<lparr> item = buildItem (example_library 1)
                     (hd (engines (Plugin (fresh_plugin (Document (Some spaced_defaults)) True Unopenable))))
                     (qstr ''x''),
            score = 1 \<rparr>]"
  by code_simp

end
